theory Spec2Isabelle
  imports Complex_Main "HOL-Library.Word" "HOL-Library.Multiset"
begin

unbundle bit_operations_syntax

section \<open>Machine types\<close>

text \<open>
  \<open>std::size_t\<close> hash values are 64-bit words and sparse indices are \<open>std::uint32_t\<close>.
  Sizes, slot counts, buffer lengths and loop counters are natural numbers: the source keeps
  them in \<open>std::size_t\<close> and \<open>int\<close>, which agree with the naturals for every slot count
  below \<open>2^31\<close>.
\<close>

type_synonym size_t = "64 word"
type_synonym uint32 = "32 word"
type_synonym ptr = "64 word"

text \<open>
  A \<open>double\<close> is only ever compared and hashed here, never computed with. The datatype keeps
  the two features of IEEE comparison that ordinary equality lacks: \<open>-0.0 == 0.0\<close>, and a
  NaN is unequal to everything, itself included. \<open>Finite 0\<close> is \<open>+0.0\<close>.
\<close>

datatype double = Finite real | NegZero | PosInf | NegInf | NaN

fun double_eq :: "double \<Rightarrow> double \<Rightarrow> bool" where
  "double_eq NaN _ = False"
| "double_eq _ NaN = False"
| "double_eq NegZero NegZero = True"
| "double_eq NegZero (Finite r) = (r = 0)"
| "double_eq (Finite r) NegZero = (r = 0)"
| "double_eq (Finite r) (Finite s) = (r = s)"
| "double_eq PosInf PosInf = True"
| "double_eq NegInf NegInf = True"
| "double_eq _ _ = False"

text \<open>\<open>value != 0\<close> and \<open>value == 0\<close> on a double.\<close>

definition nonzero :: "double \<Rightarrow> bool" where
  "nonzero d = (\<not> double_eq d (Finite 0))"

text \<open>Everything the source throws, and the two undefined behaviours it can reach.\<close>

datatype error =
    RuntimeError string
  | OutOfRange
  | DivisionByZero
  | OutOfBoundsRead

section \<open>hash\_combine (eva/util/hash\_combine.h)\<close>

text \<open>
  \<open>hash ^= hasher(value) + 0x9e3779b9 + (hash << 6) + (hash >> 2)\<close>. The second argument
  is \<open>hasher(value)\<close>, computed at the call site. \<open>std::hash\<close> of an integer or a pointer is
  the conversion to \<open>size_t\<close> (as in libstdc++ and libc++); \<open>std::hash<double>\<close> and
  \<open>std::hash<Op>\<close> are parameters \<open>hash_double\<close> and \<open>hash_Op\<close> of the functions that use them.
\<close>

definition hash_combine :: "size_t \<Rightarrow> size_t \<Rightarrow> size_t" where
  "hash_combine hash hv = hash XOR (hv + 0x9e3779b9 + push_bit 6 hash + drop_bit 2 hash)"

section \<open>ConstantValue (eva/ir/constant\_value.cpp)\<close>

datatype ConstantValue =
    Dense nat "double list"
  | Sparse nat "(uint32 \<times> double) list"

fun cv_size :: "ConstantValue \<Rightarrow> nat" where
  "cv_size (Dense n _) = n"
| "cv_size (Sparse n _) = n"

text \<open>\<open>ConstantValue::validateSlots\<close>. \<open>slots % size\<close> with \<open>size = 0\<close> is undefined.\<close>

definition validateSlots :: "nat \<Rightarrow> nat \<Rightarrow> error + unit" where
  "validateSlots sz slots =
     (if slots < sz then Inl (RuntimeError ''Slots must be at least size of constant'')
      else if sz = 0 then Inl DivisionByZero
      else if slots mod sz \<noteq> 0 then Inl (RuntimeError ''Size must exactly divide slots'')
      else Inr ())"

subsection \<open>DenseConstantValue\<close>

text \<open>The constructor; \<open>size % values.size()\<close> on an empty buffer is undefined.\<close>

definition DenseConstantValue :: "nat \<Rightarrow> double list \<Rightarrow> error + ConstantValue" where
  "DenseConstantValue sz values =
     (if length values = 0 then Inl DivisionByZero
      else if sz mod length values \<noteq> 0
        then Inl (RuntimeError ''DenseConstantValue size must exactly divide size'')
      else Inr (Dense sz values))"

text \<open>\<open>for (int r = ...; r > 0; --r) scratch.insert(scratch.end(), values.begin(), values.end())\<close>\<close>

fun insert_copies :: "nat \<Rightarrow> double list \<Rightarrow> double list \<Rightarrow> double list" where
  "insert_copies 0 values scratch = scratch"
| "insert_copies (Suc r) values scratch = insert_copies r values (scratch @ values)"

definition Dense_expand :: "nat \<Rightarrow> double list \<Rightarrow> nat \<Rightarrow> error + double list" where
  "Dense_expand sz values slots =
     (case validateSlots sz slots of
        Inl e \<Rightarrow> Inl e
      | Inr _ \<Rightarrow>
          if length values = slots then Inr values
          else if length values = 0 then Inl DivisionByZero
          else Inr (insert_copies (slots div length values) values []))"

definition Dense_expandTo :: "nat \<Rightarrow> double list \<Rightarrow> nat \<Rightarrow> error + double list" where
  "Dense_expandTo sz values slots =
     (case validateSlots sz slots of
        Inl e \<Rightarrow> Inl e
      | Inr _ \<Rightarrow>
          if length values = 0 then Inl DivisionByZero
          else Inr (insert_copies (slots div length values) values []))"

fun Dense_isZero :: "double list \<Rightarrow> bool" where
  "Dense_isZero [] = True"
| "Dense_isZero (v # vs) = (if nonzero v then False else Dense_isZero vs)"

text \<open>\<open>DenseConstantValue::operator==(const DenseConstantValue&)\<close>; \<open>std::vector\<close>'s
  \<open>==\<close> compares the lengths and then the elements with \<open>==\<close>.\<close>

definition Dense_eq_Dense :: "nat \<Rightarrow> double list \<Rightarrow> nat \<Rightarrow> double list \<Rightarrow> bool" where
  "Dense_eq_Dense sz values osz ovalues = (sz = osz \<and> list_all2 double_eq values ovalues)"

text \<open>\<open>DenseConstantValue::operator==(const SparseConstantValue&)\<close>: the loop over the
  entries of the sparse operand.\<close>

fun Dense_eq_Sparse_loop :: "double list \<Rightarrow> (uint32 \<times> double) list \<Rightarrow> error + bool" where
  "Dense_eq_Sparse_loop values [] = Inr True"
| "Dense_eq_Sparse_loop values (entry # rest) =
     (if length values = 0 then Inl DivisionByZero
      else if \<not> double_eq (values ! (unat (fst entry) mod length values)) (snd entry)
        then Inr False
      else Dense_eq_Sparse_loop values rest)"

definition Dense_eq_Sparse ::
  "nat \<Rightarrow> double list \<Rightarrow> nat \<Rightarrow> (uint32 \<times> double) list \<Rightarrow> error + bool" where
  "Dense_eq_Sparse sz values osz ovalues =
     (if sz \<noteq> osz then Inr False else Dense_eq_Sparse_loop values ovalues)"

text \<open>
  \<open>DenseConstantValue::hash\<close>: the loop \<open>for (size_t i = 0; i < size; ++i)\<close> over the state
  \<open>(hash, zero_count)\<close>. It reads \<open>values[i]\<close> unchecked; past the end of the buffer the
  read is undefined.
\<close>

function Dense_hash_loop ::
  "(double \<Rightarrow> size_t) \<Rightarrow> double list \<Rightarrow> nat \<Rightarrow> nat \<Rightarrow> size_t \<Rightarrow> size_t
     \<Rightarrow> error + (size_t \<times> size_t)" where
  "Dense_hash_loop hash_double values sz i hash zero_count =
     (if i < sz then
        (if length values \<le> i then Inl OutOfBoundsRead
         else if double_eq (values ! i) (Finite 0)
           then Dense_hash_loop hash_double values sz (i + 1) hash (zero_count + 1)
         else Dense_hash_loop hash_double values sz (i + 1)
                (hash_combine
                   (if 0 < zero_count then hash_combine hash zero_count else hash)
                   (hash_double (values ! i)))
                0)
      else Inr (hash, zero_count))"
  by pat_completeness auto
termination
  by (relation "measure (\<lambda>(hash_double, values, sz, i, hash, zero_count). sz - i)") auto

definition Dense_hash :: "(double \<Rightarrow> size_t) \<Rightarrow> nat \<Rightarrow> double list \<Rightarrow> error + size_t" where
  "Dense_hash hash_double sz values =
     (case Dense_hash_loop hash_double values sz 0 0 0 of
        Inl e \<Rightarrow> Inl e
      | Inr (hash, zero_count) \<Rightarrow>
          Inr (if 0 < zero_count then hash_combine hash zero_count else hash))"

subsection \<open>SparseConstantValue\<close>

text \<open>
  The constructor. \<open>std::copy_if\<close> keeps the entries with a nonzero value; if any are left
  they are sorted and scanned for two neighbours with the same index. The comparator takes
  its arguments as \<open>std::pair<int, int>\<close>, so it orders the indices as signed 32-bit
  integers.
\<close>

fun has_adjacent_duplicate :: "uint32 \<Rightarrow> (uint32 \<times> double) list \<Rightarrow> bool" where
  "has_adjacent_duplicate prev [] = False"
| "has_adjacent_duplicate prev (entry # rest) =
     (if fst entry = prev then True else has_adjacent_duplicate (fst entry) rest)"

definition SparseConstantValue ::
  "nat \<Rightarrow> (uint32 \<times> double) list \<Rightarrow> error + ConstantValue" where
  "SparseConstantValue sz values =
     (let kept = filter (\<lambda>entry. nonzero (snd entry)) values in
      if 0 < length kept then
        (let sorted_values = sort_key (\<lambda>entry. sint (fst entry)) kept in
         if has_adjacent_duplicate (fst (hd sorted_values)) (tl sorted_values)
           then Inl (RuntimeError ''SparseConstantValue must not have duplicate indices'')
         else Inr (Sparse sz sorted_values))
      else Inr (Sparse sz kept))"

text \<open>
  \<open>SparseConstantValue::expand\<close> and \<open>expandTo\<close>. The inner loop is
  \<open>for (int i = 0; i < slots; i += values.size()) scratch.at(entry.first + i) = entry.second\<close>
  with \<open>n = values.size()\<close>; \<open>entry.first + i\<close> is 32-bit unsigned arithmetic and
  \<open>at\<close> throws \<open>std::out_of_range\<close>. The loop body only runs for an entry of \<open>values\<close>,
  so \<open>n\<close> is never 0 there.
\<close>

function Sparse_fill ::
  "nat \<Rightarrow> nat \<Rightarrow> uint32 \<times> double \<Rightarrow> nat \<Rightarrow> double list \<Rightarrow> error + double list" where
  "Sparse_fill n slots entry i scratch =
     (if i < slots \<and> 0 < n then
        (let idx = unat (fst entry + word_of_nat i) in
         if idx < length scratch
           then Sparse_fill n slots entry (i + n) (scratch[idx := snd entry])
         else Inl OutOfRange)
      else Inr scratch)"
  by pat_completeness auto
termination
  by (relation "measure (\<lambda>(n, slots, entry, i, scratch). slots - i)") auto

fun Sparse_fill_all ::
  "nat \<Rightarrow> nat \<Rightarrow> (uint32 \<times> double) list \<Rightarrow> double list \<Rightarrow> error + double list" where
  "Sparse_fill_all n slots [] scratch = Inr scratch"
| "Sparse_fill_all n slots (entry # rest) scratch =
     (case Sparse_fill n slots entry 0 scratch of
        Inl e \<Rightarrow> Inl e
      | Inr scratch' \<Rightarrow> Sparse_fill_all n slots rest scratch')"

definition Sparse_expand ::
  "nat \<Rightarrow> (uint32 \<times> double) list \<Rightarrow> nat \<Rightarrow> error + double list" where
  "Sparse_expand sz values slots =
     (case validateSlots sz slots of
        Inl e \<Rightarrow> Inl e
      | Inr _ \<Rightarrow> Sparse_fill_all (length values) slots values (replicate slots (Finite 0)))"

definition Sparse_expandTo ::
  "nat \<Rightarrow> (uint32 \<times> double) list \<Rightarrow> nat \<Rightarrow> error + double list" where
  "Sparse_expandTo sz values slots =
     (case validateSlots sz slots of
        Inl e \<Rightarrow> Inl e
      | Inr _ \<Rightarrow> Sparse_fill_all (length values) slots values (replicate slots (Finite 0)))"

definition Sparse_isZero :: "(uint32 \<times> double) list \<Rightarrow> bool" where
  "Sparse_isZero values = (length values = 0)"

text \<open>\<open>SparseConstantValue::operator==(const SparseConstantValue&)\<close>; \<open>!=\<close> on a pair
  is the negation of \<open>first == first && second == second\<close>.\<close>

fun Sparse_eq_Sparse_loop ::
  "(uint32 \<times> double) list \<Rightarrow> (uint32 \<times> double) list \<Rightarrow> bool" where
  "Sparse_eq_Sparse_loop (a # as) (b # bs) =
     (if \<not> (fst a = fst b \<and> double_eq (snd a) (snd b)) then False
      else Sparse_eq_Sparse_loop as bs)"
| "Sparse_eq_Sparse_loop _ _ = True"

definition Sparse_eq_Sparse ::
  "nat \<Rightarrow> (uint32 \<times> double) list \<Rightarrow> nat \<Rightarrow> (uint32 \<times> double) list \<Rightarrow> bool" where
  "Sparse_eq_Sparse sz values osz ovalues =
     (if sz \<noteq> osz \<or> length values \<noteq> length ovalues then False
      else Sparse_eq_Sparse_loop values ovalues)"

text \<open>\<open>SparseConstantValue::hash\<close>: the loop over the entries, on the state
  \<open>(hash, prev)\<close>; \<open>pair.first - prev\<close> is \<open>uint32_t\<close> arithmetic and \<open>size - prev\<close> is
  \<open>size_t\<close> arithmetic.\<close>

fun Sparse_hash_loop ::
  "(double \<Rightarrow> size_t) \<Rightarrow> (uint32 \<times> double) list \<Rightarrow> size_t \<Rightarrow> uint32 \<Rightarrow> size_t \<times> uint32" where
  "Sparse_hash_loop hash_double [] hash prev = (hash, prev)"
| "Sparse_hash_loop hash_double (pair # rest) hash prev =
     Sparse_hash_loop hash_double rest
       (hash_combine
          (if 0 < fst pair - prev then hash_combine hash (ucast (fst pair - prev)) else hash)
          (hash_double (snd pair)))
       (fst pair)"

definition Sparse_hash ::
  "(double \<Rightarrow> size_t) \<Rightarrow> nat \<Rightarrow> (uint32 \<times> double) list \<Rightarrow> size_t" where
  "Sparse_hash hash_double sz values =
     (case Sparse_hash_loop hash_double values 0 0 of
        (hash, prev) \<Rightarrow>
          if 0 < (of_nat sz :: size_t) - ucast prev
            then hash_combine hash (of_nat sz - ucast prev)
          else hash)"

subsection \<open>The virtual interface\<close>

text \<open>
  \<open>a == b\<close> on two \<open>ConstantValue\<close> references is \<open>a.operator==(const ConstantValue&)\<close>,
  which calls \<open>b.operator==(a)\<close> at the static type of \<open>a\<close>; a sparse \<open>b\<close> meeting a dense
  \<open>a\<close> dispatches once more, back to \<open>a.operator==(const SparseConstantValue&)\<close>.
\<close>

fun ConstantValue_eq :: "ConstantValue \<Rightarrow> ConstantValue \<Rightarrow> error + bool" where
  "ConstantValue_eq (Dense sz values) (Dense osz ovalues) =
     Inr (Dense_eq_Dense osz ovalues sz values)"
| "ConstantValue_eq (Dense sz values) (Sparse osz ovalues) =
     Dense_eq_Sparse sz values osz ovalues"
| "ConstantValue_eq (Sparse sz values) (Dense osz ovalues) =
     Dense_eq_Sparse osz ovalues sz values"
| "ConstantValue_eq (Sparse sz values) (Sparse osz ovalues) =
     Inr (Sparse_eq_Sparse osz ovalues sz values)"

fun ConstantValue_hash :: "(double \<Rightarrow> size_t) \<Rightarrow> ConstantValue \<Rightarrow> error + size_t" where
  "ConstantValue_hash hash_double (Dense sz values) = Dense_hash hash_double sz values"
| "ConstantValue_hash hash_double (Sparse sz values) = Inr (Sparse_hash hash_double sz values)"

fun expand :: "ConstantValue \<Rightarrow> nat \<Rightarrow> error + double list" where
  "expand (Dense sz values) slots = Dense_expand sz values slots"
| "expand (Sparse sz values) slots = Sparse_expand sz values slots"

fun expandTo :: "ConstantValue \<Rightarrow> nat \<Rightarrow> error + double list" where
  "expandTo (Dense sz values) slots = Dense_expandTo sz values slots"
| "expandTo (Sparse sz values) slots = Sparse_expandTo sz values slots"

fun isZero :: "ConstantValue \<Rightarrow> bool" where
  "isZero (Dense sz values) = Dense_isZero values"
| "isZero (Sparse sz values) = Sparse_isZero values"

section \<open>The semantic term model (eva/common/common\_subexpression\_elimination.h)\<close>

text \<open>
  The operation kinds that the two switches handle, and \<open>OtherOp\<close> for any enumerator of
  \<open>Op\<close> that they do not: the enumeration itself is declared outside the files at hand,
  and both switches end in \<open>throw std::runtime_error("Unhandled op ...")\<close>.
\<close>

datatype Op =
    Undef | Input | Output | Constant
  | Negate | Add | Sub | Mul
  | RotateLeftConst | RotateRightConst
  | Relinearize | ModSwitch | Rescale | Encode
  | OtherOp nat

text \<open>
  What the model reads of a \<open>Term\<close>: its operation, its operands as pointers
  (\<open>Term::Ptr\<close>, compared and hashed by address), its index, and the attributes that
  \<open>get<...>()\<close> fetches. Modelled from the spec: the attribute store is outside the files at
  hand; an attribute is side-data fetched by its tag, and the lookup is taken to succeed.
\<close>

record Term =
  op :: Op
  operands :: "ptr list"
  index :: "64 word"
  ConstantValueAttribute :: ConstantValue
  RotationAttribute :: "32 word"
  RescaleDivisorAttribute :: "32 word"
  EncodeAtScaleAttribute :: "32 word"
  EncodeAtLevelAttribute :: "32 word"

text \<open>The operand loop of \<open>SemanticTermEquality\<close>, entered with lists of equal length:
  \<open>True\<close> when some \<open>lhs->operandAt(i) != rhs->operandAt(i)\<close>.\<close>

fun operands_differ :: "ptr list \<Rightarrow> ptr list \<Rightarrow> bool" where
  "operands_differ (a # as) (b # bs) = (if a \<noteq> b then True else operands_differ as bs)"
| "operands_differ _ _ = False"

definition SemanticTermEquality :: "Term \<Rightarrow> Term \<Rightarrow> error + bool" where
  "SemanticTermEquality lhs rhs =
     (if op lhs \<noteq> op rhs then Inr False
      else if length (operands lhs) \<noteq> length (operands rhs) then Inr False
      else if operands_differ (operands lhs) (operands rhs) then Inr False
      else (case op lhs of
          Undef \<Rightarrow> Inr False
        | Input \<Rightarrow> Inr (index lhs = index rhs)
        | Output \<Rightarrow> Inr (index lhs = index rhs)
        | Constant \<Rightarrow>
            ConstantValue_eq (ConstantValueAttribute lhs) (ConstantValueAttribute rhs)
        | Negate \<Rightarrow> Inr True
        | Add \<Rightarrow> Inr True
        | Sub \<Rightarrow> Inr True
        | Mul \<Rightarrow> Inr True
        | Relinearize \<Rightarrow> Inr True
        | ModSwitch \<Rightarrow> Inr True
        | RotateLeftConst \<Rightarrow> Inr (RotationAttribute lhs = RotationAttribute rhs)
        | RotateRightConst \<Rightarrow> Inr (RotationAttribute lhs = RotationAttribute rhs)
        | Rescale \<Rightarrow> Inr (RescaleDivisorAttribute lhs = RescaleDivisorAttribute rhs)
        | Encode \<Rightarrow>
            Inr (EncodeAtScaleAttribute lhs = EncodeAtScaleAttribute rhs \<and>
                 EncodeAtLevelAttribute lhs = EncodeAtLevelAttribute rhs)
        | OtherOp _ \<Rightarrow> Inl (RuntimeError ''Unhandled op'')))"

text \<open>\<open>for (const auto& operand : term->getOperands()) hash_combine(hash, operand)\<close>\<close>

fun hash_operands :: "size_t \<Rightarrow> ptr list \<Rightarrow> size_t" where
  "hash_operands hash [] = hash"
| "hash_operands hash (operand # rest) = hash_operands (hash_combine hash operand) rest"

definition SemanticTermHash ::
  "(double \<Rightarrow> size_t) \<Rightarrow> (Op \<Rightarrow> size_t) \<Rightarrow> Term \<Rightarrow> error + size_t" where
  "SemanticTermHash hash_double hash_Op term =
     (let hash = hash_operands (hash_combine 0 (hash_Op (op term))) (operands term) in
      case op term of
        Input \<Rightarrow> Inr (hash_combine hash (index term))
      | Output \<Rightarrow> Inr (hash_combine hash (index term))
      | Constant \<Rightarrow>
          (case ConstantValue_hash hash_double (ConstantValueAttribute term) of
             Inl e \<Rightarrow> Inl e
           | Inr h \<Rightarrow> Inr (hash_combine hash h))
      | Undef \<Rightarrow> Inr hash
      | Negate \<Rightarrow> Inr hash
      | Add \<Rightarrow> Inr hash
      | Sub \<Rightarrow> Inr hash
      | Mul \<Rightarrow> Inr hash
      | Relinearize \<Rightarrow> Inr hash
      | ModSwitch \<Rightarrow> Inr hash
      | RotateLeftConst \<Rightarrow> Inr (hash_combine hash (scast (RotationAttribute term)))
      | RotateRightConst \<Rightarrow> Inr (hash_combine hash (scast (RotationAttribute term)))
      | Rescale \<Rightarrow> Inr (hash_combine hash (ucast (RescaleDivisorAttribute term)))
      | Encode \<Rightarrow>
          Inr (hash_combine
                 (hash_combine hash (ucast (EncodeAtScaleAttribute term)))
                 (ucast (EncodeAtLevelAttribute term)))
      | OtherOp _ \<Rightarrow> Inl (RuntimeError ''Unhandled op''))"

section \<open>The CSE pass\<close>

text \<open>
  The eliminator holds the program, here the memory that maps a \<open>Term::Ptr\<close> to the term
  it points to, and \<open>unique_terms\<close>, a \<open>std::unordered_set\<close> keyed by
  \<open>SemanticTermHash\<close> and \<open>SemanticTermEquality\<close>. The set is a list of the inserted
  pointers in insertion order, each with the hash code computed when it was inserted.
\<close>

record CommonSubexpressionEliminator =
  program :: "ptr \<Rightarrow> Term"
  unique_terms :: "(ptr \<times> size_t) list"

text \<open>
  The lookup inside \<open>unique_terms.insert(term)\<close>. A hash table compares the key only with
  the elements its bucket layout leads it to: \<open>probe h he\<close> says whether a key of hash
  code \<open>h\<close> is compared with an element of hash code \<open>he\<close> (it is at least \<open>h = he\<close>).
  The first such element that the equality accepts is the one found.
\<close>

fun find_equal ::
  "(size_t \<Rightarrow> size_t \<Rightarrow> bool) \<Rightarrow> (ptr \<Rightarrow> Term) \<Rightarrow> Term \<Rightarrow> size_t \<Rightarrow> (ptr \<times> size_t) list
     \<Rightarrow> error + ptr option" where
  "find_equal probe prog key h [] = Inr None"
| "find_equal probe prog key h ((e, he) # rest) =
     (if probe h he then
        (case SemanticTermEquality key (prog e) of
           Inl err \<Rightarrow> Inl err
         | Inr True \<Rightarrow> Inr (Some e)
         | Inr False \<Rightarrow> find_equal probe prog key h rest)
      else find_equal probe prog key h rest)"

text \<open>
  Modelled from the spec: \<open>Term::replaceAllUsesWith\<close> is outside the files at hand. It
  redirects every current user of the term \<open>a\<close> to reference \<open>b\<close> instead: a rewrite of
  the users' operand lists.
\<close>

definition replaceAllUsesWith :: "(ptr \<Rightarrow> Term) \<Rightarrow> ptr \<Rightarrow> ptr \<Rightarrow> (ptr \<Rightarrow> Term)" where
  "replaceAllUsesWith prog a b =
     (\<lambda>q. (prog q)\<lparr>operands := map (\<lambda>p. if p = a then b else p) (operands (prog q))\<rparr>)"

text \<open>\<open>CommonSubexpressionEliminator::operator()\<close>, the spec's \<open>process(term)\<close>.\<close>

definition process ::
  "(size_t \<Rightarrow> size_t \<Rightarrow> bool) \<Rightarrow> (double \<Rightarrow> size_t) \<Rightarrow> (Op \<Rightarrow> size_t)
     \<Rightarrow> CommonSubexpressionEliminator \<Rightarrow> ptr \<Rightarrow> error + CommonSubexpressionEliminator" where
  "process probe hash_double hash_Op s term =
     (case SemanticTermHash hash_double hash_Op (program s term) of
        Inl e \<Rightarrow> Inl e
      | Inr h \<Rightarrow>
          (case find_equal probe (program s) (program s term) h (unique_terms s) of
             Inl e \<Rightarrow> Inl e
           | Inr None \<Rightarrow> Inr (s\<lparr>unique_terms := unique_terms s @ [(term, h)]\<rparr>)
           | Inr (Some rep) \<Rightarrow>
               Inr (s\<lparr>program := replaceAllUsesWith (program s) term rep\<rparr>)))"

section \<open>The spec's logical pattern\<close>

text \<open>
  The spec's reading of a constant, against which the code is compared: a constant denotes
  the \<open>size\<close> entries of one period. A dense buffer is tiled to \<open>size\<close>; a sparse value has
  its entries at their indices and zero everywhere else.
\<close>

fun logical_pattern :: "ConstantValue \<Rightarrow> double list" where
  "logical_pattern (Dense sz values) = map (\<lambda>i. values ! (i mod length values)) [0..<sz]"
| "logical_pattern (Sparse sz values) =
     map (\<lambda>i. case map_of (map (\<lambda>entry. (unat (fst entry), snd entry)) values) i of
                 Some v \<Rightarrow> v
               | None \<Rightarrow> Finite 0)
         [0..<sz]"

definition same_pattern :: "ConstantValue \<Rightarrow> ConstantValue \<Rightarrow> bool" where
  "same_pattern a b =
     (cv_size a = cv_size b \<and> list_all2 double_eq (logical_pattern a) (logical_pattern b))"

section \<open>Example terms\<close>

text \<open>A term with the given operation and operands and all attributes at a default, for the
  concrete instances below.\<close>

definition term_of :: "Op \<Rightarrow> ptr list \<Rightarrow> Term" where
  "term_of k ps =
     \<lparr>op = k, operands = ps, index = 0, ConstantValueAttribute = Sparse 1 [],
      RotationAttribute = 0, RescaleDivisorAttribute = 0,
      EncodeAtScaleAttribute = 0, EncodeAtLevelAttribute = 0\<rparr>"

text \<open>A program of four terms: two structurally identical additions at the addresses 1 and 3,
  a subtraction at 2, and a multiplication at 4 that uses the second addition.\<close>

definition example_program :: "ptr \<Rightarrow> Term" where
  "example_program =
     (\<lambda>_. term_of Undef [])
       (1 := term_of Add [5, 5], 2 := term_of Sub [5, 5],
        3 := term_of Add [5, 5], 4 := term_of Mul [3, 3])"

text \<open>The eliminator after it has processed the first addition, under hash functions
  \<open>std::hash<double>\<close> and \<open>std::hash<Op>\<close> that are constantly 0.\<close>

definition example_eliminator :: CommonSubexpressionEliminator where
  "example_eliminator =
     \<lparr>program = example_program,
      unique_terms = [(1, hash_operands (hash_combine 0 0) [5, 5])]\<rparr>"

section \<open>Auxiliary facts\<close>

lemma xor_left_inj: "(a::size_t) XOR b = a XOR c \<longleftrightarrow> b = c"
  by (metis bit.xor_left_self)

lemma hash_combine_inj: "hash_combine h x = hash_combine h y \<longleftrightarrow> x = y"
  by (simp add: hash_combine_def xor_left_inj)

lemma operands_differ_iff:
  "length xs = length ys \<Longrightarrow> operands_differ xs ys \<longleftrightarrow> xs \<noteq> ys"
  by (induction xs ys rule: operands_differ.induct) auto

lemma find_equal_none:
  "\<forall>(e, he) \<in> set tbl. SemanticTermEquality key (prog e) = Inr False \<Longrightarrow>
   find_equal probe prog key h tbl = Inr None"
  by (induction tbl) auto

lemma find_equal_Some:
  "find_equal probe prog key h tbl = Inr (Some rep) \<Longrightarrow>
   \<exists>hrep. (rep, hrep) \<in> set tbl \<and> probe h hrep \<and>
          SemanticTermEquality key (prog rep) = Inr True"
proof (induction tbl)
  case Nil
  then show ?case by simp
next
  case (Cons x tbl)
  obtain e he where x: "x = (e, he)" by (cases x)
  show ?case
  proof (cases "probe h he")
    case True
    then show ?thesis using Cons x
      by (auto split: sum.splits bool.splits)
  next
    case False
    then show ?thesis using Cons x by auto
  qed
qed

text \<open>Apart from constants, the term hash agrees on terms that the equality accepts.\<close>

lemma SemanticTermHash_sound_apart_from_Constant:
  assumes "SemanticTermEquality a b = Inr True" and "op a \<noteq> Constant"
  shows "SemanticTermHash hash_double hash_Op a = SemanticTermHash hash_double hash_Op b"
proof -
  from assms(1) have o: "op a = op b"
    by (auto simp: SemanticTermEquality_def split: if_splits)
  from assms(1) have len: "length (operands a) = length (operands b)"
    and nd: "\<not> operands_differ (operands a) (operands b)"
    by (auto simp: SemanticTermEquality_def split: if_splits)
  then have ops: "operands a = operands b"
    by (simp add: operands_differ_iff)
  from assms(1) o len nd have sw:
    "(case op b of
        Undef \<Rightarrow> False
      | Input \<Rightarrow> index a = index b
      | Output \<Rightarrow> index a = index b
      | RotateLeftConst \<Rightarrow> RotationAttribute a = RotationAttribute b
      | RotateRightConst \<Rightarrow> RotationAttribute a = RotationAttribute b
      | Rescale \<Rightarrow> RescaleDivisorAttribute a = RescaleDivisorAttribute b
      | Encode \<Rightarrow> EncodeAtScaleAttribute a = EncodeAtScaleAttribute b \<and>
                  EncodeAtLevelAttribute a = EncodeAtLevelAttribute b
      | OtherOp _ \<Rightarrow> False
      | _ \<Rightarrow> True)"
    using assms(2) by (cases "op b") (simp_all add: SemanticTermEquality_def)
  show ?thesis
    using sw o ops assms(2) by (cases "op b") (simp_all add: SemanticTermHash_def)
qed

text \<open>The dense variant does follow the expansion law and the validation of the slot count.\<close>

lemma insert_copies_concat:
  "insert_copies n vs acc = acc @ concat (replicate n vs)"
  by (induction n arbitrary: acc) simp_all

lemma tile_pattern:
  assumes "vs \<noteq> []"
  shows "map (\<lambda>i. vs ! (i mod length vs)) [0..<m * length vs] = concat (replicate m vs)"
proof (induction m)
  case 0
  then show ?case by simp
next
  case (Suc m)
  let ?n = "length vs"
  have a: "Suc m * ?n = m * ?n + ?n" by simp
  have b: "[0..<m * ?n + ?n] = [0..<m * ?n] @ [m * ?n..<m * ?n + ?n]"
    by (rule upt_add_eq_append) simp
  have c: "[m * ?n..<m * ?n + ?n] = map (\<lambda>j. j + m * ?n) [0..<?n]"
    by (simp only: map_add_upt add.commute[of "m * ?n" ?n])
  have d: "map (\<lambda>i. vs ! (i mod ?n)) (map (\<lambda>j. j + m * ?n) [0..<?n]) = map (\<lambda>j. vs ! j) [0..<?n]"
    unfolding map_map by (rule map_cong) simp_all
  have e: "map (\<lambda>j. vs ! j) [0..<?n] = vs" by (rule map_nth)
  have "map (\<lambda>i. vs ! (i mod ?n)) [0..<Suc m * ?n] =
      map (\<lambda>i. vs ! (i mod ?n)) [0..<m * ?n] @ vs"
    by (simp only: a b c map_append d e)
  also have "\<dots> = concat (replicate m vs) @ vs"
    by (simp only: Suc.IH)
  also have "\<dots> = concat (replicate (Suc m) vs)"
    by (induction m) simp_all
  finally show ?case .
qed

lemma concat_replicate_mult:
  "concat (replicate k (concat (replicate m vs))) = concat (replicate (k * m) vs)"
  by (induction k) (simp_all add: replicate_add)


lemma Dense_expand_law:
  assumes ne: "values \<noteq> []" and dv: "sz mod length values = 0" and sz: "0 < sz" and k: "0 < k"
  shows "expand (Dense sz values) (k * sz) =
           Inr (concat (replicate k (logical_pattern (Dense sz values))))
       \<and> expandTo (Dense sz values) (k * sz) =
           Inr (concat (replicate k (logical_pattern (Dense sz values))))"
proof -
  let ?n = "length values"
  define m where "m = sz div ?n"
  from ne have n: "0 < ?n" by simp
  from dv have "?n dvd sz" by (simp add: mod_eq_0_iff_dvd)
  then have m: "sz = m * ?n" by (simp add: m_def)
  have pat: "logical_pattern (Dense sz values) = concat (replicate m values)"
    using tile_pattern[OF ne, of m] by (simp only: logical_pattern.simps m)
  have "k * sz mod sz = 0" by simp
  moreover have "sz \<le> k * sz" using k by simp
  ultimately have v: "validateSlots sz (k * sz) = Inr ()"
    using sz by (simp add: validateSlots_def)
  have "k * sz = (k * m) * ?n" by (simp only: m mult.assoc)
  then have "k * sz div ?n = (k * m) * ?n div ?n" by (rule arg_cong)
  also have "\<dots> = k * m" using n by (rule div_mult_self_is_m)
  finally have d: "k * sz div ?n = k * m" .
  have copies: "insert_copies (k * sz div ?n) values [] =
      concat (replicate k (logical_pattern (Dense sz values)))"
    by (simp only: insert_copies_concat d pat concat_replicate_mult append_Nil)
  have to: "expandTo (Dense sz values) (k * sz) =
           Inr (concat (replicate k (logical_pattern (Dense sz values))))"
    using n by (simp add: Dense_expandTo_def v copies)
  have ex: "expand (Dense sz values) (k * sz) =
           Inr (concat (replicate k (logical_pattern (Dense sz values))))"
  proof (cases "?n = k * sz")
    case True
    with d n have "k * m = 1" by simp
    then have k1: "k = 1" and m1: "m = 1" by simp_all
    have "concat (replicate m values) = values"
      by (simp add: m1)
    with pat have "logical_pattern (Dense sz values) = values"
      by (rule trans)
    then have "concat (replicate k (logical_pattern (Dense sz values))) = values"
      by (simp only: k1) simp
    with True show ?thesis by (simp add: Dense_expand_def v)
  next
    case False
    with n show ?thesis by (simp add: Dense_expand_def v copies)
  qed
  from ex to show ?thesis by (rule conjI)
qed

lemma validateSlots_accepts_iff:
  "0 < sz \<Longrightarrow> validateSlots sz slots = Inr () \<longleftrightarrow> sz \<le> slots \<and> slots mod sz = 0"
  by (simp add: validateSlots_def)

lemma Dense_expand_succeeds_iff:
  assumes "values \<noteq> []" and "0 < sz"
  shows "(\<exists>r. expand (Dense sz values) slots = Inr r) \<longleftrightarrow> sz \<le> slots \<and> slots mod sz = 0"
    and "(\<exists>r. expandTo (Dense sz values) slots = Inr r) \<longleftrightarrow> sz \<le> slots \<and> slots mod sz = 0"
  using assms by (auto simp: Dense_expand_def Dense_expandTo_def validateSlots_def)

section \<open>Equality and hashing of constants\<close>

text \<open>
  C1. Equality of constants is claimed to hold exactly when the two values denote the same
  logical pattern. The code accepts the dense pattern \<open>[1, 5, 0, 0]\<close> and the sparse value
  \<open>{1: 5}\<close> of size 4 as equal, in both orders, although they differ at position 0: the
  dense-against-sparse comparison only visits the sparse entries. It also rejects the dense
  buffer \<open>[1, 2]\<close> of size 4 against its own expansion \<open>[1, 2, 1, 2]\<close>: the
  dense-against-dense comparison is on the raw buffers.
\<close>

theorem ConstantValue_eq_not_logical:
  "DenseConstantValue 4 [Finite 1, Finite 5, Finite 0, Finite 0] =
     Inr (Dense 4 [Finite 1, Finite 5, Finite 0, Finite 0])
   \<and> SparseConstantValue 4 [(1, Finite 5)] = Inr (Sparse 4 [(1, Finite 5)])
   \<and> ConstantValue_eq (Dense 4 [Finite 1, Finite 5, Finite 0, Finite 0])
        (Sparse 4 [(1, Finite 5)]) = Inr True
   \<and> ConstantValue_eq (Sparse 4 [(1, Finite 5)])
        (Dense 4 [Finite 1, Finite 5, Finite 0, Finite 0]) = Inr True
   \<and> \<not> same_pattern (Dense 4 [Finite 1, Finite 5, Finite 0, Finite 0])
          (Sparse 4 [(1, Finite 5)])
   \<and> DenseConstantValue 4 [Finite 1, Finite 2] = Inr (Dense 4 [Finite 1, Finite 2])
   \<and> ConstantValue_eq (Dense 4 [Finite 1, Finite 2])
        (Dense 4 [Finite 1, Finite 2, Finite 1, Finite 2]) = Inr False
   \<and> same_pattern (Dense 4 [Finite 1, Finite 2])
        (Dense 4 [Finite 1, Finite 2, Finite 1, Finite 2])"
  by code_simp

text \<open>
  C2. The hash is claimed to be the same for a dense and a sparse value of the same pattern,
  in particular for the dense \<open>[0, 5, 0, 0]\<close> and the sparse \<open>{1: 5}\<close> of size 4. The two
  are equal for the code and denote the same pattern, and their hashes differ whatever
  \<open>std::hash<double>\<close> is: the dense hash ends on the run of 2 zeros, the sparse hash on
  \<open>size - prev = 3\<close>.
\<close>

theorem ConstantValue_hash_depends_on_representation:
  "ConstantValue_eq (Dense 4 [Finite 0, Finite 5, Finite 0, Finite 0])
       (Sparse 4 [(1, Finite 5)]) = Inr True
   \<and> same_pattern (Dense 4 [Finite 0, Finite 5, Finite 0, Finite 0])
         (Sparse 4 [(1, Finite 5)])
   \<and> ConstantValue_hash hash_double (Dense 4 [Finite 0, Finite 5, Finite 0, Finite 0])
       \<noteq> ConstantValue_hash hash_double (Sparse 4 [(1, Finite 5)])"
proof -
  have "ConstantValue_eq (Dense 4 [Finite 0, Finite 5, Finite 0, Finite 0])
          (Sparse 4 [(1, Finite 5)]) = Inr True"
    by code_simp
  moreover have "same_pattern (Dense 4 [Finite 0, Finite 5, Finite 0, Finite 0])
                   (Sparse 4 [(1, Finite 5)])"
    by code_simp
  moreover have
    "ConstantValue_hash hash_double (Dense 4 [Finite 0, Finite 5, Finite 0, Finite 0])
       \<noteq> ConstantValue_hash hash_double (Sparse 4 [(1, Finite 5)])"
    by (simp add: Dense_hash_def Sparse_hash_def hash_combine_inj)
  ultimately show ?thesis by blast
qed

text \<open>
  C8. Hashing a dense value whose buffer is a strict sub-period is claimed to index modulo
  the buffer length and to give the hash of the expanded buffer. The dense buffer
  \<open>[1, 2]\<close> of size 4 is accepted by the constructor; its hash reads \<open>values[2]\<close>, past
  the end of the buffer, while the expanded buffer hashes its four entries.
\<close>

theorem Dense_hash_reads_past_sub_period:
  "DenseConstantValue 4 [Finite 1, Finite 2] = Inr (Dense 4 [Finite 1, Finite 2])
   \<and> ConstantValue_hash hash_double (Dense 4 [Finite 1, Finite 2]) = Inl OutOfBoundsRead
   \<and> ConstantValue_hash hash_double (Dense 4 [Finite 1, Finite 2, Finite 1, Finite 2]) =
       Inr (hash_combine
             (hash_combine
               (hash_combine (hash_combine 0 (hash_double (Finite 1)))
                 (hash_double (Finite 2)))
               (hash_double (Finite 1)))
             (hash_double (Finite 2)))"
proof -
  have "DenseConstantValue 4 [Finite 1, Finite 2] = Inr (Dense 4 [Finite 1, Finite 2])"
    by code_simp
  then show ?thesis
    by (simp add: Dense_hash_def)
qed

section \<open>Expansion\<close>

text \<open>
  C3. Expansion to \<open>k * size\<close> slots is claimed to give the logical pattern \<open>k\<close> times.
  The sparse value \<open>{0: 5}\<close> of size 4 has the pattern \<open>[5, 0, 0, 0]\<close>; expanded to 4 and
  to 8 slots it is all fives, since the inner loop steps by the number of stored entries.
\<close>

theorem Sparse_expand_not_pattern:
  "SparseConstantValue 4 [(0, Finite 5)] = Inr (Sparse 4 [(0, Finite 5)])
   \<and> logical_pattern (Sparse 4 [(0, Finite 5)]) = [Finite 5, Finite 0, Finite 0, Finite 0]
   \<and> expand (Sparse 4 [(0, Finite 5)]) 4 = Inr [Finite 5, Finite 5, Finite 5, Finite 5]
   \<and> expandTo (Sparse 4 [(0, Finite 5)]) 4 = Inr [Finite 5, Finite 5, Finite 5, Finite 5]
   \<and> expand (Sparse 4 [(0, Finite 5)]) 8 =
        Inr [Finite 5, Finite 5, Finite 5, Finite 5, Finite 5, Finite 5, Finite 5, Finite 5]"
  by code_simp

text \<open>
  C5. Expansion is claimed to succeed for every slot count that \<open>validateSlots\<close> accepts.
  For the sparse value \<open>{1: 5}\<close> of size 4 and 4 slots the validation passes and both
  \<open>expand\<close> and \<open>expandTo\<close> end in \<open>std::out_of_range\<close>: with one stored entry the inner
  loop visits \<open>i = 0, 1, 2, 3\<close> and writes at \<open>1 + i\<close>.
\<close>

theorem Sparse_expand_raises_on_valid_slots:
  "SparseConstantValue 4 [(1, Finite 5)] = Inr (Sparse 4 [(1, Finite 5)])
   \<and> validateSlots 4 4 = Inr ()
   \<and> expand (Sparse 4 [(1, Finite 5)]) 4 = Inl OutOfRange
   \<and> expandTo (Sparse 4 [(1, Finite 5)]) 4 = Inl OutOfRange"
  by code_simp

section \<open>The semantic term model\<close>

text \<open>
  C4. Terms that \<open>SemanticTermEquality\<close> accepts are claimed to have the same
  \<open>SemanticTermHash\<close>, also for constants in different representations. The two constant
  terms below, one dense \<open>[0, 5, 0, 0]\<close> and one sparse \<open>{1: 5}\<close>, are equal for the code
  and hash differently, whatever \<open>std::hash<double>\<close> and \<open>std::hash<Op>\<close> are.
\<close>

theorem SemanticTermHash_unsound_on_constants:
  "SemanticTermEquality
     ((term_of Constant [])
        \<lparr>ConstantValueAttribute := Dense 4 [Finite 0, Finite 5, Finite 0, Finite 0]\<rparr>)
     ((term_of Constant [])\<lparr>ConstantValueAttribute := Sparse 4 [(1, Finite 5)]\<rparr>)
     = Inr True
   \<and> SemanticTermHash hash_double hash_Op
       ((term_of Constant [])
          \<lparr>ConstantValueAttribute := Dense 4 [Finite 0, Finite 5, Finite 0, Finite 0]\<rparr>)
     \<noteq> SemanticTermHash hash_double hash_Op
         ((term_of Constant [])\<lparr>ConstantValueAttribute := Sparse 4 [(1, Finite 5)]\<rparr>)"
  by (simp add: term_of_def SemanticTermEquality_def SemanticTermHash_def Dense_eq_Sparse_def
        Dense_hash_def Sparse_hash_def hash_combine_inj)

text \<open>
  C6. For the operation kind \<open>Undef\<close> the equality is false against every term, on either
  side, the term itself included; so the pass inserts an \<open>Undef\<close> term into its table
  whatever the table holds, and leaves the program alone.
\<close>

theorem Undef_never_deduplicated:
  "(op lhs = Undef \<longrightarrow>
      SemanticTermEquality lhs rhs = Inr False \<and> SemanticTermEquality rhs lhs = Inr False)
   \<and> (op (program s term) = Undef \<longrightarrow>
        process probe hash_double hash_Op s term =
          Inr (s\<lparr>unique_terms := unique_terms s @
                 [(term, hash_operands (hash_combine 0 (hash_Op Undef))
                           (operands (program s term)))]\<rparr>))"
proof (intro conjI impI)
  assume "op lhs = Undef"
  then show "SemanticTermEquality lhs rhs = Inr False"
    and "SemanticTermEquality rhs lhs = Inr False"
    by (simp_all add: SemanticTermEquality_def)
next
  assume u: "op (program s term) = Undef"
  have "find_equal probe (program s) (program s term) h (unique_terms s) = Inr None" for h
    by (rule find_equal_none) (simp add: SemanticTermEquality_def u split: prod.splits)
  then show "process probe hash_double hash_Op s term =
          Inr (s\<lparr>unique_terms := unique_terms s @
                 [(term, hash_operands (hash_combine 0 (hash_Op Undef))
                           (operands (program s term)))]\<rparr>)"
    by (simp add: process_def SemanticTermHash_def u)
qed

theorem Undef_never_deduplicated_witness:
  "SemanticTermEquality (term_of Undef [7]) (term_of Undef [7]) = Inr False
   \<and> process (=) (\<lambda>_. 0) (\<lambda>_. 0)
        \<lparr>program = (\<lambda>_. term_of Undef [7]),
         unique_terms = [(1, hash_operands (hash_combine 0 0) [7])]\<rparr> 1 =
      Inr \<lparr>program = (\<lambda>_. term_of Undef [7]),
           unique_terms = [(1, hash_operands (hash_combine 0 0) [7]),
                           (1, hash_operands (hash_combine 0 0) [7])]\<rparr>"
proof -
  have u: "op (term_of Undef [7]) = Undef"
    by (simp add: term_of_def)
  have o: "operands (term_of Undef [7]) = [7]"
    by (simp add: term_of_def)
  from u Undef_never_deduplicated[of "term_of Undef [7]" "term_of Undef [7]"
      "\<lparr>program = (\<lambda>_. term_of Undef [7]),
        unique_terms = [(1, hash_operands (hash_combine 0 0) [7])]\<rparr>" 1
      "(=)" "\<lambda>_. 0" "\<lambda>_. 0"]
  show ?thesis
    by (simp add: o)
qed

text \<open>
  C7. For two terms of the same operation kind and with the same operand pointers, the
  equality is true without a look at any attribute for Negate, Add, Sub, Mul, Relinearize
  and ModSwitch; it is the equality of the indices for Input and Output, the equality of the
  attached constant values for Constant, of the rotation attributes for RotateLeftConst and
  RotateRightConst, of the divisor attributes for Rescale, and of both the scale and the
  level attributes for Encode.
\<close>

theorem SemanticTermEquality_tie_break:
  assumes "op lhs = op rhs" and "operands lhs = operands rhs"
  shows "(op lhs \<in> {Negate, Add, Sub, Mul, Relinearize, ModSwitch} \<longrightarrow>
            SemanticTermEquality lhs rhs = Inr True)
       \<and> (op lhs \<in> {Input, Output} \<longrightarrow>
            SemanticTermEquality lhs rhs = Inr (index lhs = index rhs))
       \<and> (op lhs = Constant \<longrightarrow>
            SemanticTermEquality lhs rhs =
              ConstantValue_eq (ConstantValueAttribute lhs) (ConstantValueAttribute rhs))
       \<and> (op lhs \<in> {RotateLeftConst, RotateRightConst} \<longrightarrow>
            SemanticTermEquality lhs rhs =
              Inr (RotationAttribute lhs = RotationAttribute rhs))
       \<and> (op lhs = Rescale \<longrightarrow>
            SemanticTermEquality lhs rhs =
              Inr (RescaleDivisorAttribute lhs = RescaleDivisorAttribute rhs))
       \<and> (op lhs = Encode \<longrightarrow>
            SemanticTermEquality lhs rhs =
              Inr (EncodeAtScaleAttribute lhs = EncodeAtScaleAttribute rhs \<and>
                   EncodeAtLevelAttribute lhs = EncodeAtLevelAttribute rhs))"
proof -
  have "\<not> operands_differ (operands lhs) (operands rhs)"
    using assms(2) by (simp add: operands_differ_iff)
  then show ?thesis
    using assms by (auto simp: SemanticTermEquality_def)
qed

theorem SemanticTermEquality_tie_break_witness:
  "SemanticTermEquality (term_of Add [5, 5])
       ((term_of Add [5, 5])\<lparr>index := 9, RotationAttribute := 3\<rparr>) = Inr True
   \<and> SemanticTermEquality (term_of Input []) ((term_of Input [])\<lparr>index := 1\<rparr>) = Inr False
   \<and> SemanticTermEquality
        ((term_of Constant [])\<lparr>ConstantValueAttribute := Sparse 4 [(1, Finite 5)]\<rparr>)
        ((term_of Constant [])\<lparr>ConstantValueAttribute := Sparse 4 [(1, Finite 6)]\<rparr>)
       = Inr False
   \<and> SemanticTermEquality ((term_of RotateLeftConst [2])\<lparr>RotationAttribute := 3\<rparr>)
        ((term_of RotateLeftConst [2])\<lparr>RotationAttribute := 3, index := 8\<rparr>) = Inr True
   \<and> SemanticTermEquality ((term_of Rescale [2])\<lparr>RescaleDivisorAttribute := 30\<rparr>)
        ((term_of Rescale [2])\<lparr>RescaleDivisorAttribute := 60\<rparr>) = Inr False
   \<and> SemanticTermEquality
        ((term_of Encode [2])\<lparr>EncodeAtScaleAttribute := 30, EncodeAtLevelAttribute := 1\<rparr>)
        ((term_of Encode [2])\<lparr>EncodeAtScaleAttribute := 30, EncodeAtLevelAttribute := 2\<rparr>)
       = Inr False"
  using
    SemanticTermEquality_tie_break[of "term_of Add [5, 5]"
      "(term_of Add [5, 5])\<lparr>index := 9, RotationAttribute := 3\<rparr>"]
    SemanticTermEquality_tie_break[of "term_of Input []" "(term_of Input [])\<lparr>index := 1\<rparr>"]
    SemanticTermEquality_tie_break[of
      "(term_of Constant [])\<lparr>ConstantValueAttribute := Sparse 4 [(1, Finite 5)]\<rparr>"
      "(term_of Constant [])\<lparr>ConstantValueAttribute := Sparse 4 [(1, Finite 6)]\<rparr>"]
    SemanticTermEquality_tie_break[of "(term_of RotateLeftConst [2])\<lparr>RotationAttribute := 3\<rparr>"
      "(term_of RotateLeftConst [2])\<lparr>RotationAttribute := 3, index := 8\<rparr>"]
    SemanticTermEquality_tie_break[of "(term_of Rescale [2])\<lparr>RescaleDivisorAttribute := 30\<rparr>"
      "(term_of Rescale [2])\<lparr>RescaleDivisorAttribute := 60\<rparr>"]
    SemanticTermEquality_tie_break[of
      "(term_of Encode [2])\<lparr>EncodeAtScaleAttribute := 30, EncodeAtLevelAttribute := 1\<rparr>"
      "(term_of Encode [2])\<lparr>EncodeAtScaleAttribute := 30, EncodeAtLevelAttribute := 2\<rparr>"]
  by (simp add: term_of_def Sparse_eq_Sparse_def)

section \<open>The CSE pass\<close>

text \<open>
  C10. When \<open>process(term)\<close> meets a table that holds no term equal to \<open>term\<close>, it only
  appends \<open>term\<close> to the table: the program, and so every operand list, is as before.
  Whenever \<open>process(term)\<close> returns, either it did just that, or the table held a
  representative that the equality accepts for \<open>term\<close> and the program is the old one with
  the users of \<open>term\<close> redirected to that representative.
\<close>

theorem process_frame:
  "(SemanticTermHash hash_double hash_Op (program s term) = Inr h \<and>
    (\<forall>(e, he) \<in> set (unique_terms s).
        SemanticTermEquality (program s term) (program s e) = Inr False)
    \<longrightarrow> process probe hash_double hash_Op s term =
          Inr (s\<lparr>unique_terms := unique_terms s @ [(term, h)]\<rparr>))
 \<and> (process probe hash_double hash_Op s term = Inr s' \<longrightarrow>
      (program s' = program s \<and> (\<exists>h. unique_terms s' = unique_terms s @ [(term, h)]))
    \<or> (\<exists>(rep, hrep) \<in> set (unique_terms s).
          SemanticTermEquality (program s term) (program s rep) = Inr True \<and>
          s' = s\<lparr>program := replaceAllUsesWith (program s) term rep\<rparr>))"
proof (intro conjI impI)
  assume a: "SemanticTermHash hash_double hash_Op (program s term) = Inr h \<and>
    (\<forall>(e, he) \<in> set (unique_terms s).
        SemanticTermEquality (program s term) (program s e) = Inr False)"
  then have "find_equal probe (program s) (program s term) h (unique_terms s) = Inr None"
    by (intro find_equal_none) simp
  with a show "process probe hash_double hash_Op s term =
          Inr (s\<lparr>unique_terms := unique_terms s @ [(term, h)]\<rparr>)"
    by (simp add: process_def)
next
  assume p: "process probe hash_double hash_Op s term = Inr s'"
  then obtain h where h: "SemanticTermHash hash_double hash_Op (program s term) = Inr h"
    by (auto simp: process_def split: sum.splits)
  from p h obtain r where
    r: "find_equal probe (program s) (program s term) h (unique_terms s) = Inr r"
    by (auto simp: process_def split: sum.splits)
  show "(program s' = program s \<and> (\<exists>h. unique_terms s' = unique_terms s @ [(term, h)]))
    \<or> (\<exists>(rep, hrep) \<in> set (unique_terms s).
          SemanticTermEquality (program s term) (program s rep) = Inr True \<and>
          s' = s\<lparr>program := replaceAllUsesWith (program s) term rep\<rparr>)"
  proof (cases r)
    case None
    with p h r show ?thesis by (auto simp: process_def)
  next
    case (Some rep)
    with r find_equal_Some obtain hrep where
      "(rep, hrep) \<in> set (unique_terms s)"
      "SemanticTermEquality (program s term) (program s rep) = Inr True"
      by blast
    moreover from p h r Some
    have "s' = s\<lparr>program := replaceAllUsesWith (program s) term rep\<rparr>"
      by (simp add: process_def)
    ultimately show ?thesis by blast
  qed
qed

theorem process_frame_witness:
  "process (=) (\<lambda>_. 0) (\<lambda>_. 0) example_eliminator 2 =
     Inr (example_eliminator
            \<lparr>unique_terms := unique_terms example_eliminator @
                              [(2, hash_operands (hash_combine 0 0) [5, 5])]\<rparr>)
   \<and> (\<exists>(rep, hrep) \<in> set (unique_terms example_eliminator).
        SemanticTermEquality (example_program 3) (example_program rep) = Inr True \<and>
        process (=) (\<lambda>_. 0) (\<lambda>_. 0) example_eliminator 3 =
          Inr (example_eliminator\<lparr>program := replaceAllUsesWith example_program 3 rep\<rparr>))
   \<and> operands (replaceAllUsesWith example_program 3 1 4) = [1, 1]"
proof -
  let ?h = "hash_operands (hash_combine 0 0) [5, 5]"
  let ?s' = "example_eliminator\<lparr>program := replaceAllUsesWith example_program 3 1\<rparr>"
  have prog: "program example_eliminator = example_program"
    and tbl: "unique_terms example_eliminator = [(1, ?h)]"
    by (simp_all add: example_eliminator_def)
  have t1: "example_program 1 = term_of Add [5, 5]"
    and t2: "example_program 2 = term_of Sub [5, 5]"
    and t3: "example_program 3 = term_of Add [5, 5]"
    and t4: "example_program 4 = term_of Mul [3, 3]"
    by (simp_all add: example_program_def)
  have hyp1: "SemanticTermHash (\<lambda>_. 0) (\<lambda>_. 0) (program example_eliminator 2) = Inr ?h \<and>
    (\<forall>(e, he) \<in> set (unique_terms example_eliminator).
        SemanticTermEquality (program example_eliminator 2) (program example_eliminator e)
          = Inr False)"
    by (simp add: prog tbl t1 t2 term_of_def SemanticTermHash_def SemanticTermEquality_def)
  have first: "process (=) (\<lambda>_. 0) (\<lambda>_. 0) example_eliminator 2 =
     Inr (example_eliminator
            \<lparr>unique_terms := unique_terms example_eliminator @ [(2, ?h)]\<rparr>)"
    using process_frame[of "\<lambda>_. 0" "\<lambda>_. 0" example_eliminator 2 ?h "(=)"] hyp1
    by blast
  have ops: "operands (replaceAllUsesWith example_program 3 1 4) = [1, 1]"
    by (simp add: replaceAllUsesWith_def t4 term_of_def)
  have hyp2: "process (=) (\<lambda>_. 0) (\<lambda>_. 0) example_eliminator 3 = Inr ?s'"
    by (simp add: process_def prog tbl t1 t3 term_of_def SemanticTermHash_def
          SemanticTermEquality_def)
  have "operands (program ?s' 4) \<noteq> operands (program example_eliminator 4)"
    by (simp add: ops prog t4 term_of_def)
  then have changed: "program ?s' \<noteq> program example_eliminator"
    by metis
  from process_frame[of "\<lambda>_. 0" "\<lambda>_. 0" example_eliminator 3 _ "(=)" ?s'] hyp2 changed
  have "\<exists>(rep, hrep) \<in> set (unique_terms example_eliminator).
          SemanticTermEquality (program example_eliminator 3) (program example_eliminator rep)
            = Inr True \<and>
          ?s' = example_eliminator
                  \<lparr>program := replaceAllUsesWith (program example_eliminator) 3 rep\<rparr>"
    by blast
  with hyp2 have second: "\<exists>(rep, hrep) \<in> set (unique_terms example_eliminator).
        SemanticTermEquality (example_program 3) (example_program rep) = Inr True \<and>
        process (=) (\<lambda>_. 0) (\<lambda>_. 0) example_eliminator 3 =
          Inr (example_eliminator\<lparr>program := replaceAllUsesWith example_program 3 rep\<rparr>)"
    by (auto simp: prog)
  from first second ops show ?thesis by blast
qed

section \<open>Construction of sparse constants\<close>

lemma has_adjacent_duplicate_iff:
  "sorted (map (\<lambda>entry. sint (fst entry)) (x # rest)) \<Longrightarrow>
   has_adjacent_duplicate (fst x) rest \<longleftrightarrow> \<not> distinct (map fst (x # rest))"
proof (induction rest arbitrary: x)
  case Nil
  then show ?case by simp
next
  case (Cons y ys)
  show ?case
  proof (cases "fst y = fst x")
    case True
    then show ?thesis by simp
  next
    case False
    from Cons.prems have s: "sorted (map (\<lambda>entry. sint (fst entry)) (y # ys))"
      and le: "sint (fst x) \<le> sint (fst y)"
      and all: "\<forall>z \<in> set ys. sint (fst y) \<le> sint (fst z)"
      by auto
    have "fst x \<noteq> fst z" if "z \<in> set ys" for z
    proof
      assume "fst x = fst z"
      with all that le have "sint (fst y) = sint (fst x)" by fastforce
      then have "fst y = fst x" by (rule signed_word_eqI)
      with False show False by simp
    qed
    then have "fst x \<notin> fst ` set ys" by auto
    with False Cons.IH[OF s] show ?thesis by auto
  qed
qed

lemma sint_small: 
  fixes w :: uint32
  assumes "w < 2 ^ 31"
  shows "sint w = uint w"
proof -
  have "uint w < 2 ^ 31"
    using assms by (simp add: word_less_def)
  moreover have "- (2 ^ 31) \<le> uint w"
    by (rule order_trans[of _ 0]) simp_all
  ultimately have "signed_take_bit 31 (uint w) = uint w"
    by (intro signed_take_bit_int_eq_self)
  then show ?thesis by (simp add: sint_uint)
qed

lemma strictly_increasing:
  fixes xs :: "(uint32 \<times> double) list"
  assumes "sorted (map (\<lambda>entry. sint (fst entry)) xs)"
    and "distinct (map fst xs)"
    and "\<forall>entry \<in> set xs. fst entry < 2 ^ 31"
  shows "sorted_wrt (\<lambda>a b. fst a < fst b) xs"
  using assms
proof (induction xs)
  case Nil
  then show ?case by simp
next
  case (Cons x xs)
  have "fst x < fst z" if z: "z \<in> set xs" for z
  proof -
    from Cons.prems(1) z have "sint (fst x) \<le> sint (fst z)" by auto
    moreover have "sint (fst x) = uint (fst x)" "sint (fst z) = uint (fst z)"
      using Cons.prems(3) z by (auto intro: sint_small)
    ultimately have "fst x \<le> fst z" by (simp add: word_le_def)
    moreover from Cons.prems(2) z have "fst x \<noteq> fst z" by auto
    ultimately show ?thesis by simp
  qed
  with Cons show ?case by auto
qed

lemma logical_pattern_nonzero:
  fixes stored :: "(uint32 \<times> double) list"
  assumes d: "distinct (map fst stored)"
    and nz: "\<forall>entry \<in> set stored. nonzero (snd entry)"
    and bound: "\<forall>entry \<in> set stored. unat (fst entry) < sz"
  shows "list_all (\<lambda>v. \<not> nonzero v) (logical_pattern (Sparse sz stored)) \<longleftrightarrow> stored = []"
proof
  assume "stored = []"
  then show "list_all (\<lambda>v. \<not> nonzero v) (logical_pattern (Sparse sz stored))"
    by (simp add: list_all_iff nonzero_def)
next
  assume all: "list_all (\<lambda>v. \<not> nonzero v) (logical_pattern (Sparse sz stored))"
  show "stored = []"
  proof (rule ccontr)
    assume "stored \<noteq> []"
    then obtain k v where kv: "(k, v) \<in> set stored"
      by (cases stored) auto
    let ?al = "map (\<lambda>entry. (unat (fst entry), snd entry)) stored"
    have "map fst ?al = map unat (map fst stored)" by (simp add: comp_def)
    moreover have "inj_on (unat :: uint32 \<Rightarrow> nat) (set (map fst stored))"
      by (rule inj_onI) (rule unsigned_word_eqI)
    with d have "distinct (map unat (map fst stored))"
      by (subst distinct_map) (rule conjI)
    ultimately have "distinct (map fst ?al)" by (simp only:)
    moreover have "(unat k, v) \<in> set ?al" using kv by force
    ultimately have "map_of ?al (unat k) = Some v" by (rule map_of_is_SomeI)
    moreover have "unat k < sz" using bound kv by auto
    ultimately have "v \<in> set (logical_pattern (Sparse sz stored))"
      by (force simp: image_iff)
    with all have "\<not> nonzero v" unfolding list_all_iff by blast
    with nz kv show False by auto
  qed
qed

text \<open>
  C9, as stated: construction is claimed to fail exactly when the input has duplicate
  indices. The input \<open>[(1, 0), (1, 5)]\<close> has the index 1 twice and is accepted: the entry
  with value zero is dropped before the entries are sorted and scanned for duplicates.
\<close>

theorem SparseConstantValue_accepts_duplicate_of_zero:
  "SparseConstantValue 4 [(1, Finite 0), (1, Finite 5)] = Inr (Sparse 4 [(1, Finite 5)])
   \<and> \<not> distinct (map fst [(1 :: uint32, Finite 0), (1, Finite 5)])"
  by code_simp

text \<open>
  C9, amended. Construction fails, with the runtime error on duplicate indices, exactly
  when two of the input entries with a nonzero value have the same index. Otherwise the
  stored entries are exactly the input entries with a nonzero value; they are in strictly
  increasing order of index when the indices are below \<open>2^31\<close>; \<open>isZero\<close> holds exactly
  when nothing is stored; and when the indices are below \<open>size\<close>, that is exactly when
  the logical pattern is zero everywhere.
\<close>

theorem SparseConstantValue_normalises:
  "(\<not> distinct (map fst (filter (\<lambda>entry. nonzero (snd entry)) values)) \<longrightarrow>
      SparseConstantValue sz values =
        Inl (RuntimeError ''SparseConstantValue must not have duplicate indices''))
 \<and> (distinct (map fst (filter (\<lambda>entry. nonzero (snd entry)) values)) \<longrightarrow>
      (\<exists>stored. SparseConstantValue sz values = Inr (Sparse sz stored)
         \<and> mset stored = mset (filter (\<lambda>entry. nonzero (snd entry)) values)
         \<and> ((\<forall>entry \<in> set stored. fst entry < 2 ^ 31) \<longrightarrow>
               sorted_wrt (\<lambda>a b. fst a < fst b) stored)
         \<and> (isZero (Sparse sz stored) \<longleftrightarrow> stored = [])
         \<and> ((\<forall>entry \<in> set stored. unat (fst entry) < sz) \<longrightarrow>
              (isZero (Sparse sz stored) \<longleftrightarrow>
                 list_all (\<lambda>v. \<not> nonzero v) (logical_pattern (Sparse sz stored))))))"
proof -
  define kept where "kept = filter (\<lambda>entry. nonzero (snd entry)) values"
  define sorted_values where "sorted_values = sort_key (\<lambda>entry. sint (fst entry)) kept"
  have ms: "mset sorted_values = mset kept"
    by (simp add: sorted_values_def)
  then have set_eq: "set sorted_values = set kept"
    by (rule mset_eq_setD)
  have "mset (map fst sorted_values) = mset (map fst kept)"
    using ms by (metis mset_map)
  then have dist: "distinct (map fst sorted_values) \<longleftrightarrow> distinct (map fst kept)"
    by (rule mset_eq_imp_distinct_iff)
  have srt: "sorted (map (\<lambda>entry. sint (fst entry)) sorted_values)"
    by (simp add: sorted_values_def)
  have dup: "has_adjacent_duplicate (fst (hd sorted_values)) (tl sorted_values)
               \<longleftrightarrow> \<not> distinct (map fst kept)" if "kept \<noteq> []"
  proof -
    from that ms have "sorted_values \<noteq> []" by auto
    then obtain x rest where xr: "sorted_values = x # rest" by (cases sorted_values) auto
    from srt xr have "has_adjacent_duplicate (fst x) rest \<longleftrightarrow> \<not> distinct (map fst (x # rest))"
      by (intro has_adjacent_duplicate_iff) simp
    with xr dist show ?thesis by simp
  qed
  have res: "SparseConstantValue sz values =
      (if distinct (map fst kept) then Inr (Sparse sz sorted_values)
       else Inl (RuntimeError ''SparseConstantValue must not have duplicate indices''))"
  proof (cases "kept = []")
    case True
    then show ?thesis
      by (simp add: SparseConstantValue_def kept_def[symmetric] sorted_values_def)
  next
    case False
    with dup show ?thesis
      by (simp add: SparseConstantValue_def kept_def[symmetric] sorted_values_def[symmetric] Let_def)
  qed
  have nz: "\<forall>entry \<in> set sorted_values. nonzero (snd entry)"
    by (simp add: set_eq kept_def)
  show ?thesis
    unfolding kept_def[symmetric]
  proof (intro conjI impI)
    assume "\<not> distinct (map fst kept)"
    then show "SparseConstantValue sz values =
        Inl (RuntimeError ''SparseConstantValue must not have duplicate indices'')"
      by (simp add: res)
  next
    assume dk: "distinct (map fst kept)"
    then have ds: "distinct (map fst sorted_values)" by (simp add: dist)
    show "\<exists>stored. SparseConstantValue sz values = Inr (Sparse sz stored)
         \<and> mset stored = mset kept
         \<and> ((\<forall>entry \<in> set stored. fst entry < 2 ^ 31) \<longrightarrow>
               sorted_wrt (\<lambda>a b. fst a < fst b) stored)
         \<and> (isZero (Sparse sz stored) \<longleftrightarrow> stored = [])
         \<and> ((\<forall>entry \<in> set stored. unat (fst entry) < sz) \<longrightarrow>
              (isZero (Sparse sz stored) \<longleftrightarrow>
                 list_all (\<lambda>v. \<not> nonzero v) (logical_pattern (Sparse sz stored))))"
    proof (intro exI[of _ sorted_values] conjI impI)
      show "SparseConstantValue sz values = Inr (Sparse sz sorted_values)"
        using dk by (simp add: res)
      show "mset sorted_values = mset kept" by (rule ms)
      show "sorted_wrt (\<lambda>a b. fst a < fst b) sorted_values"
        if "\<forall>entry \<in> set sorted_values. fst entry < 2 ^ 31"
        using srt ds that by (rule strictly_increasing)
      show "isZero (Sparse sz sorted_values) \<longleftrightarrow> sorted_values = []"
        by (simp add: Sparse_isZero_def)
      show "isZero (Sparse sz sorted_values) \<longleftrightarrow>
              list_all (\<lambda>v. \<not> nonzero v) (logical_pattern (Sparse sz sorted_values))"
        if "\<forall>entry \<in> set sorted_values. unat (fst entry) < sz"
        using logical_pattern_nonzero[OF ds nz that] by (simp add: Sparse_isZero_def)
    qed
  qed
qed

theorem SparseConstantValue_normalises_witness:
  "SparseConstantValue 4 [(1, Finite 3), (1, Finite 5)] =
     Inl (RuntimeError ''SparseConstantValue must not have duplicate indices'')
   \<and> (\<exists>stored. SparseConstantValue 4 [(3, Finite 2), (1, Finite 0), (1, Finite 5)] =
                  Inr (Sparse 4 stored)
         \<and> mset stored = mset [(3, Finite 2), (1, Finite 5)]
         \<and> sorted_wrt (\<lambda>a b. fst a < fst b) stored
         \<and> stored \<noteq> []
         \<and> \<not> isZero (Sparse 4 stored)
         \<and> \<not> list_all (\<lambda>v. \<not> nonzero v) (logical_pattern (Sparse 4 stored)))"
proof -
  let ?bad = "[(1 :: uint32, Finite 3), (1, Finite 5)]"
  let ?good = "[(3 :: uint32, Finite 2), (1, Finite 0), (1, Finite 5)]"
  have kept_bad: "filter (\<lambda>entry. nonzero (snd entry)) ?bad = ?bad"
    by (simp add: nonzero_def)
  have kept_good: "filter (\<lambda>entry. nonzero (snd entry)) ?good = [(3, Finite 2), (1, Finite 5)]"
    by (simp add: nonzero_def)
  have "\<not> distinct (map fst (filter (\<lambda>entry. nonzero (snd entry)) ?bad))"
    by (simp add: nonzero_def)
  with conjunct1[OF SparseConstantValue_normalises[of ?bad 4]]
  have first: "SparseConstantValue 4 ?bad =
     Inl (RuntimeError ''SparseConstantValue must not have duplicate indices'')"
    by (rule mp)
  have "distinct (map fst (filter (\<lambda>entry. nonzero (snd entry)) ?good))"
    by (simp add: nonzero_def)
  with conjunct2[OF SparseConstantValue_normalises[of ?good 4]]
  have "\<exists>stored. SparseConstantValue 4 ?good = Inr (Sparse 4 stored)
         \<and> mset stored = mset (filter (\<lambda>entry. nonzero (snd entry)) ?good)
         \<and> ((\<forall>entry \<in> set stored. fst entry < 2 ^ 31) \<longrightarrow>
               sorted_wrt (\<lambda>a b. fst a < fst b) stored)
         \<and> (isZero (Sparse 4 stored) \<longleftrightarrow> stored = [])
         \<and> ((\<forall>entry \<in> set stored. unat (fst entry) < 4) \<longrightarrow>
              (isZero (Sparse 4 stored) \<longleftrightarrow>
                 list_all (\<lambda>v. \<not> nonzero v) (logical_pattern (Sparse 4 stored))))"
    by (rule mp)
  then obtain stored where
    c: "SparseConstantValue 4 ?good = Inr (Sparse 4 stored)"
    and m: "mset stored = mset (filter (\<lambda>entry. nonzero (snd entry)) ?good)"
    and s: "(\<forall>entry \<in> set stored. fst entry < 2 ^ 31) \<longrightarrow>
              sorted_wrt (\<lambda>a b. fst a < fst b) stored"
    and z: "isZero (Sparse 4 stored) \<longleftrightarrow> stored = []"
    and l: "(\<forall>entry \<in> set stored. unat (fst entry) < 4) \<longrightarrow>
              (isZero (Sparse 4 stored) \<longleftrightarrow>
                 list_all (\<lambda>v. \<not> nonzero v) (logical_pattern (Sparse 4 stored)))"
    by (elim exE conjE)
  from m have m': "mset stored = mset [(3, Finite 2), (1, Finite 5)]"
    by (simp only: kept_good)
  then have "set stored = set [(3 :: uint32, Finite 2), (1, Finite 5)]"
    by (rule mset_eq_setD)
  then have set_stored: "set stored = {(3, Finite 2), (1, Finite 5)}"
    by simp
  have ne: "stored \<noteq> []"
  proof
    assume "stored = []"
    with set_stored show False by simp
  qed
  from set_stored have "\<forall>entry \<in> set stored. fst entry < 2 ^ 31" by simp
  with s have srt: "sorted_wrt (\<lambda>a b. fst a < fst b) stored" by (rule mp)
  from set_stored have "\<forall>entry \<in> set stored. unat (fst entry) < 4" by simp
  with l have iff: "isZero (Sparse 4 stored) \<longleftrightarrow>
      list_all (\<lambda>v. \<not> nonzero v) (logical_pattern (Sparse 4 stored))" by (rule mp)
  from z ne have nz: "\<not> isZero (Sparse 4 stored)"
    by blast
  from iff nz
  have np: "\<not> list_all (\<lambda>v. \<not> nonzero v) (logical_pattern (Sparse 4 stored))"
    by blast
  from c m' srt ne nz np have "SparseConstantValue 4 ?good = Inr (Sparse 4 stored)
         \<and> mset stored = mset [(3, Finite 2), (1, Finite 5)]
         \<and> sorted_wrt (\<lambda>a b. fst a < fst b) stored
         \<and> stored \<noteq> []
         \<and> \<not> isZero (Sparse 4 stored)
         \<and> \<not> list_all (\<lambda>v. \<not> nonzero v) (logical_pattern (Sparse 4 stored))"
    by (intro conjI)
  then have "\<exists>stored. SparseConstantValue 4 ?good = Inr (Sparse 4 stored)
         \<and> mset stored = mset [(3, Finite 2), (1, Finite 5)]
         \<and> sorted_wrt (\<lambda>a b. fst a < fst b) stored
         \<and> stored \<noteq> []
         \<and> \<not> isZero (Sparse 4 stored)
         \<and> \<not> list_all (\<lambda>v. \<not> nonzero v) (logical_pattern (Sparse 4 stored))"
    by (rule exI)
  with first show ?thesis by (rule conjI)
qed

end
